theory Spec2Isabelle
  imports Complex_Main
begin

section \<open>The wake-word listener \<open>scripts/hey_jubilee.py\<close>\<close>

text \<open>
  The script is one function \<open>main\<close> that talks to three external libraries (the keyword
  engine, the audio recorder, the hotkey synthesiser). The model is a pure function from the
  parsed arguments and the answers of the outside world to the sequence of calls and
  messages \<open>main\<close> produces, together with the way \<open>main\<close> ends.

  Clock readings (\<open>time.time()\<close>) and intervals are real numbers: the subtraction and the
  comparison of line 213 are exact in the model.
\<close>

subsection \<open>Configuration\<close>

definition DEBOUNCE_SECONDS :: real where
  "DEBOUNCE_SECONDS = 2"

text \<open>The parsed command line (\<open>args\<close> of line 89).\<close>

record args =
  list_devices :: bool
  device :: int
  sensitivity :: real
  access_key :: string
  keyword_path :: "string option"
  use_jarvis :: bool

subsection \<open>Exceptions\<close>

text \<open>
  The exceptions the handlers of \<open>main\<close> tell apart. \<open>KeyboardInterrupt\<close> derives from
  \<open>BaseException\<close> only, so \<open>except Exception\<close> does not catch it.
\<close>

datatype exn =
    KeyboardInterrupt
  | PorcupineActivationError
  | PorcupineInvalidArgumentError
  | OtherException

fun is_Exception :: "exn \<Rightarrow> bool" where
  "is_Exception KeyboardInterrupt = False"
| "is_Exception PorcupineActivationError = True"
| "is_Exception PorcupineInvalidArgumentError = True"
| "is_Exception OtherException = True"

subsection \<open>The outside world\<close>

text \<open>
  One pass through the body of \<open>while True\<close> as the outside world decides it:
  \<open>recorder.read()\<close> raises, or \<open>porcupine.process\<close> raises, or the detector returns a
  keyword index; in the last case the iteration also carries the clock reading that
  \<open>time.time()\<close> would give and the way \<open>on_wake_word_detected()\<close> would end
  (\<open>None\<close>: it returns).
\<close>

datatype iteration =
    ReadRaises exn
  | ProcessRaises exn
  | Detected int real "exn option"

record env =
  CUSTOM_KEYWORD_PATH :: "string option"
  path_exists :: "string \<Rightarrow> bool"
  get_available_devices :: "exn + string list"
  porcupine_create :: "exn option"
  recorder_create :: "exn option"
  recorder_start :: "exn option"
  iterations :: "iteration list"
  recorder_stop :: "exn option"
  porcupine_delete :: "exn option"

text \<open>
  \<open>iterations\<close> is a finite prefix of what the loop meets. The loop has no exit of its own:
  when the prefix is used up without an exception the loop is still running.
\<close>

subsection \<open>What \<open>main\<close> does: calls and messages\<close>

datatype keyword =
    KeywordPaths string
  | Keywords string

datatype message =
    DevicesHeader
  | DeviceEntry nat string
  | DevicesFooter
  | SetupRequired
  | LoadingCustomKeyword string
  | UsingJarvis
  | LoadingCustomKeywordFromEnv string
  | NoCustomKeywordFound
  | ActivationErrorMsg
  | InvalidArgumentMsg
  | ErrorInitializingPorcupine
  | ErrorInitializingRecorder
  | Banner string
  | Stopping
  | Goodbye

text \<open>
  \<open>OnWakeWordDetected t\<close> is the call of \<open>on_wake_word_detected()\<close>; \<open>t\<close> is the value of
  \<open>current_time\<close> at the call, kept to state when the action fired.
\<close>

datatype event =
    Print message
  | GetAvailableDevices
  | PorcupineCreate string keyword real
  | PvRecorderCreate int
  | RecorderStart
  | RecorderRead
  | PorcupineProcess
  | OnWakeWordDetected real
  | RecorderStop
  | PorcupineDelete

datatype outcome =
    Returned
  | Raised exn
  | Listening

subsection \<open>\<open>list_audio_devices\<close> (lines 71-79)\<close>

definition list_audio_devices :: "env \<Rightarrow> event list \<times> outcome" where
  "list_audio_devices w =
     (case get_available_devices w of
        Inl e \<Rightarrow> ([Print DevicesHeader, GetAvailableDevices], Raised e)
      | Inr devices \<Rightarrow>
          ([Print DevicesHeader, GetAvailableDevices]
             @ map (\<lambda>(i, d). Print (DeviceEntry i d)) (enumerate 0 devices)
             @ [Print DevicesFooter],
           Returned))"

subsection \<open>Keyword selection and detector initialisation (lines 129-178)\<close>

text \<open>\<open>p and os.path.exists(p)\<close>: \<open>None\<close> and the empty string are falsy.\<close>

definition existing :: "env \<Rightarrow> string option \<Rightarrow> string option" where
  "existing w p =
     (case p of
        None \<Rightarrow> None
      | Some s \<Rightarrow> if s \<noteq> [] \<and> path_exists w s then Some s else None)"

text \<open>The message printed, the keyword argument of \<open>pvporcupine.create\<close>, and \<open>wake_word_name\<close>.\<close>

definition select_keyword :: "args \<Rightarrow> env \<Rightarrow> message \<times> keyword \<times> string" where
  "select_keyword a w =
     (case existing w (keyword_path a) of
        Some p \<Rightarrow> (LoadingCustomKeyword p, KeywordPaths p, ''Hey Jubilee'')
      | None \<Rightarrow>
          if use_jarvis a then (UsingJarvis, Keywords ''jarvis'', ''Jarvis'')
          else (case existing w (CUSTOM_KEYWORD_PATH w) of
                  Some q \<Rightarrow> (LoadingCustomKeywordFromEnv q, KeywordPaths q, ''Hey Jubilee'')
                | None \<Rightarrow> (NoCustomKeywordFound, Keywords ''jarvis'', ''Jarvis'')))"

text \<open>The three \<open>except\<close> clauses of lines 169-178, in their order.\<close>

fun porcupine_handler :: "exn \<Rightarrow> event list \<times> outcome" where
  "porcupine_handler PorcupineActivationError = ([Print ActivationErrorMsg], Returned)"
| "porcupine_handler PorcupineInvalidArgumentError = ([Print InvalidArgumentMsg], Returned)"
| "porcupine_handler OtherException = ([Print ErrorInitializingPorcupine], Returned)"
| "porcupine_handler KeyboardInterrupt = ([], Raised KeyboardInterrupt)"

text \<open>\<open>Inr name\<close>: the detector exists and \<open>wake_word_name = name\<close>; \<open>Inl out\<close>: \<open>main\<close> ends.\<close>

definition init_porcupine :: "args \<Rightarrow> env \<Rightarrow> event list \<times> (outcome + string)" where
  "init_porcupine a w =
     (case select_keyword a w of
        (msg, kw, name) \<Rightarrow>
          (case porcupine_create w of
             None \<Rightarrow> ([Print msg, PorcupineCreate (access_key a) kw (sensitivity a)], Inr name)
           | Some e \<Rightarrow>
               (case porcupine_handler e of
                  (tr, out) \<Rightarrow>
                    ([Print msg, PorcupineCreate (access_key a) kw (sensitivity a)] @ tr,
                     Inl out))))"

subsection \<open>Recorder initialisation (lines 180-190)\<close>

text \<open>\<open>None\<close>: the recorder exists; \<open>Some out\<close>: \<open>main\<close> ends.\<close>

definition init_recorder :: "args \<Rightarrow> env \<Rightarrow> event list \<times> outcome option" where
  "init_recorder a w =
     (case recorder_create w of
        None \<Rightarrow> ([PvRecorderCreate (device a)], None)
      | Some e \<Rightarrow>
          if is_Exception e then
            ([PvRecorderCreate (device a), Print ErrorInitializingRecorder, PorcupineDelete],
             Some (case porcupine_delete w of None \<Rightarrow> Returned | Some e' \<Rightarrow> Raised e'))
          else ([PvRecorderCreate (device a)], Some (Raised e)))"

subsection \<open>The detection loop (lines 207-215)\<close>

text \<open>
  The body of the loop from \<open>last_trigger_time\<close>: the calls made, the new
  \<open>last_trigger_time\<close>, and the exception that leaves the loop, if any. Line 214 assigns
  \<open>last_trigger_time\<close> before line 215 calls the action.
\<close>

fun body :: "iteration \<Rightarrow> real \<Rightarrow> event list \<times> real \<times> exn option" where
  "body (ReadRaises e) last_trigger_time = ([RecorderRead], last_trigger_time, Some e)"
| "body (ProcessRaises e) last_trigger_time =
     ([RecorderRead, PorcupineProcess], last_trigger_time, Some e)"
| "body (Detected keyword_index current_time action) last_trigger_time =
     (if keyword_index \<ge> 0 then
        if current_time - last_trigger_time > DEBOUNCE_SECONDS then
          ([RecorderRead, PorcupineProcess, OnWakeWordDetected current_time],
           current_time, action)
        else ([RecorderRead, PorcupineProcess], last_trigger_time, None)
      else ([RecorderRead, PorcupineProcess], last_trigger_time, None))"

fun loop :: "iteration list \<Rightarrow> real \<Rightarrow> event list \<times> real \<times> exn option" where
  "loop [] last_trigger_time = ([], last_trigger_time, None)"
| "loop (it # its) last_trigger_time =
     (case body it last_trigger_time of
        (tr, t, Some e) \<Rightarrow> (tr, t, Some e)
      | (tr, t, None) \<Rightarrow>
          (case loop its t of (tr', t', r) \<Rightarrow> (tr @ tr', t', r)))"

subsection \<open>Listening and cleanup (lines 203-222)\<close>

text \<open>
  The \<open>finally\<close> clause: \<open>recorder.stop()\<close>, then \<open>porcupine.delete()\<close>, then the farewell.
  An exception of either call leaves the clause at once and replaces the pending outcome.
\<close>

definition cleanup :: "env \<Rightarrow> outcome \<Rightarrow> event list \<times> outcome" where
  "cleanup w pending =
     (case recorder_stop w of
        Some e \<Rightarrow> ([RecorderStop], Raised e)
      | None \<Rightarrow>
          (case porcupine_delete w of
             Some e \<Rightarrow> ([RecorderStop, PorcupineDelete], Raised e)
           | None \<Rightarrow> ([RecorderStop, PorcupineDelete, Print Goodbye], pending)))"

text \<open>
  \<open>recorder.start()\<close> and \<open>last_trigger_time = 0\<close> stand before the \<open>try\<close>. Inside it,
  \<open>KeyboardInterrupt\<close> is caught and announced; any other exception stays pending through
  the \<open>finally\<close> clause.
\<close>

definition listen :: "env \<Rightarrow> event list \<times> outcome" where
  "listen w =
     (case recorder_start w of
        Some e \<Rightarrow> ([RecorderStart], Raised e)
      | None \<Rightarrow>
          (case loop (iterations w) 0 of
             (tr, t, None) \<Rightarrow> (RecorderStart # tr, Listening)
           | (tr, t, Some e) \<Rightarrow>
               if e = KeyboardInterrupt then
                 (case cleanup w Returned of
                    (tr', out) \<Rightarrow> (RecorderStart # tr @ [Print Stopping] @ tr', out))
               else
                 (case cleanup w (Raised e) of
                    (tr', out) \<Rightarrow> (RecorderStart # tr @ tr', out))))"

subsection \<open>\<open>main\<close> (lines 81-222)\<close>

definition main :: "args \<Rightarrow> env \<Rightarrow> event list \<times> outcome" where
  "main a w =
     (if list_devices a then list_audio_devices w
      else if access_key a = ''YOUR_ACCESS_KEY_HERE'' then ([Print SetupRequired], Returned)
      else
        (case init_porcupine a w of
           (tr1, Inl out) \<Rightarrow> (tr1, out)
         | (tr1, Inr wake_word_name) \<Rightarrow>
             (case init_recorder a w of
                (tr2, Some out) \<Rightarrow> (tr1 @ tr2, out)
              | (tr2, None) \<Rightarrow>
                  (case listen w of
                     (tr3, out) \<Rightarrow>
                       (tr1 @ tr2 @ [Print (Banner wake_word_name)] @ tr3, out)))))"

subsection \<open>Observations on a run\<close>

text \<open>The clock readings at which the action was called, in order.\<close>

fun fires :: "event list \<Rightarrow> real list" where
  "fires [] = []"
| "fires (OnWakeWordDetected t # es) = t # fires es"
| "fires (e # es) = fires es"

text \<open>Calls that acquire a resource, and calls that only happen once listening has begun.\<close>

fun acquires :: "event \<Rightarrow> bool" where
  "acquires (PorcupineCreate k p s) = True"
| "acquires (PvRecorderCreate d) = True"
| "acquires e = False"

fun in_loop :: "event \<Rightarrow> bool" where
  "in_loop RecorderStart = True"
| "in_loop RecorderRead = True"
| "in_loop PorcupineProcess = True"
| "in_loop (OnWakeWordDetected t) = True"
| "in_loop e = False"

text \<open>Consecutive entries are more than the debounce interval apart, the first one from \<open>t0\<close>.\<close>

fun spaced :: "real \<Rightarrow> real list \<Rightarrow> bool" where
  "spaced t0 [] = True"
| "spaced t0 (t # ts) = (t - t0 > DEBOUNCE_SECONDS \<and> spaced t ts)"

text \<open>The detector reported no keyword: \<open>keyword_index\<close> is negative (line 211).\<close>

fun no_match :: "iteration \<Rightarrow> bool" where
  "no_match (Detected keyword_index t a) = (keyword_index < 0)"
| "no_match it = False"

text \<open>The messages that report an initialisation error (lines 170-177 and 187).\<close>

fun error_report :: "message \<Rightarrow> bool" where
  "error_report ActivationErrorMsg = True"
| "error_report InvalidArgumentMsg = True"
| "error_report ErrorInitializingPorcupine = True"
| "error_report ErrorInitializingRecorder = True"
| "error_report m = False"

subsection \<open>A sample run\<close>

text \<open>
  The defaults of the argument parser with a configured credential, and an outside world in
  which every call succeeds, no model file exists and nothing has been heard yet.
\<close>

definition example_args :: args where
  "example_args =
     \<lparr>list_devices = False, device = - 1, sensitivity = 4 / 5, access_key = ''key'',
      keyword_path = None, use_jarvis = False\<rparr>"

definition example_env :: env where
  "example_env =
     \<lparr>CUSTOM_KEYWORD_PATH = None, path_exists = (\<lambda>p. False),
      get_available_devices = Inr [''Microphone''],
      porcupine_create = None, recorder_create = None, recorder_start = None,
      iterations = [], recorder_stop = None, porcupine_delete = None\<rparr>"

lemmas example_defs = example_args_def example_env_def

lemmas run_defs = main_def init_porcupine_def select_keyword_def existing_def
  init_recorder_def listen_def cleanup_def list_audio_devices_def

section \<open>Where the action can be called\<close>

lemma fires_append: "fires (xs @ ys) = fires xs @ fires ys"
  by (induction xs rule: fires.induct) simp_all

lemma fires_entries: "fires (map (\<lambda>(i, d). Print (DeviceEntry i d)) xs) = []"
  by (induction xs) auto

lemma fires_list_audio_devices: "fires (fst (list_audio_devices w)) = []"
  by (simp add: list_audio_devices_def fires_append fires_entries split: sum.splits)

lemma fires_init_porcupine: "fires (fst (init_porcupine a w)) = []"
  by (cases "porcupine_create w"; cases "select_keyword a w")
     (auto simp: init_porcupine_def fires_append split: prod.splits elim: porcupine_handler.elims)

lemma fires_init_recorder: "fires (fst (init_recorder a w)) = []"
  by (simp add: init_recorder_def split: option.splits)

lemma fires_cleanup: "fires (fst (cleanup w p)) = []"
  by (simp add: cleanup_def split: option.splits)

lemma fires_listen:
  "fires (fst (listen w)) =
     (if recorder_start w = None then fires (fst (loop (iterations w) 0)) else [])"
proof (cases "recorder_start w")
  case None
  obtain tr t r where l: "loop (iterations w) 0 = (tr, t, r)"
    by (cases "loop (iterations w) 0") auto
  show ?thesis
  proof (cases r)
    case None
    with l \<open>recorder_start w = None\<close> show ?thesis by (simp add: listen_def)
  next
    case (Some e)
    obtain tr' out'
      where c: "cleanup w (if e = KeyboardInterrupt then Returned else Raised e) = (tr', out')"
      by (cases "cleanup w (if e = KeyboardInterrupt then Returned else Raised e)") auto
    have "fires tr' = []"
      using fires_cleanup [of w "if e = KeyboardInterrupt then Returned else Raised e"] c
      by simp
    with l Some c \<open>recorder_start w = None\<close> show ?thesis
      by (auto simp: listen_def fires_append split: if_splits)
  qed
next
  case (Some e)
  then show ?thesis by (simp add: listen_def)
qed

lemma fires_main:
  "fires (fst (main a w)) = [] \<or> fires (fst (main a w)) = fires (fst (loop (iterations w) 0))"
proof -
  obtain tr1 r1 where p: "init_porcupine a w = (tr1, r1)" by (cases "init_porcupine a w") auto
  obtain tr2 r2 where q: "init_recorder a w = (tr2, r2)" by (cases "init_recorder a w") auto
  obtain tr3 r3 where s: "listen w = (tr3, r3)" by (cases "listen w") auto
  have f1: "fires tr1 = []" using fires_init_porcupine [of a w] p by simp
  have f2: "fires tr2 = []" using fires_init_recorder [of a w] q by simp
  have f3: "fires tr3 = [] \<or> fires tr3 = fires (fst (loop (iterations w) 0))"
    using fires_listen [of w] s by (auto split: if_splits)
  show ?thesis
    using p q s f1 f2 f3 fires_list_audio_devices [of w]
    by (auto simp: main_def fires_append split: sum.splits option.splits)
qed

text \<open>When both resources are acquired and the recorder starts, the action is called by the loop only.\<close>

lemma main_listening:
  assumes "\<not> list_devices a" and "access_key a \<noteq> ''YOUR_ACCESS_KEY_HERE''"
    and "porcupine_create w = None" and "recorder_create w = None"
    and "recorder_start w = None"
  shows "fires (fst (main a w)) = fires (fst (loop (iterations w) 0))"
proof -
  obtain tr1 r1 where p: "init_porcupine a w = (tr1, r1)" by (cases "init_porcupine a w") auto
  obtain tr3 r3 where s: "listen w = (tr3, r3)" by (cases "listen w") auto
  from p assms(3) obtain name where r1: "r1 = Inr name"
    by (auto simp: init_porcupine_def split: prod.splits)
  have f1: "fires tr1 = []" using fires_init_porcupine [of a w] p by simp
  have f3: "fires tr3 = fires (fst (loop (iterations w) 0))"
    using fires_listen [of w] s assms(5) by simp
  show ?thesis
    using assms p r1 s f1 f3
    by (simp add: main_def init_recorder_def fires_append)
qed

section \<open>The debounce policy\<close>

lemma spaced_append:
  "spaced t0 (xs @ ys) = (spaced t0 xs \<and> spaced (last (t0 # xs)) ys)"
  by (induction xs arbitrary: t0) simp_all

text \<open>One pass either leaves the timestamp alone or fires once and moves it forward.\<close>

lemma body_fires:
  "body it l = (tr, t, r) \<Longrightarrow>
     (fires tr = [] \<and> t = l) \<or> (fires tr = [t] \<and> t - l > DEBOUNCE_SECONDS)"
  by (cases it) (auto split: if_splits)

lemma loop_spaced:
  "loop its l = (tr, t, r) \<Longrightarrow> spaced l (fires tr) \<and> t = last (l # fires tr)"
proof (induction its arbitrary: l tr t r)
  case Nil
  then show ?case by simp
next
  case (Cons it its)
  obtain tr1 t1 r1 where b: "body it l = (tr1, t1, r1)"
    by (cases "body it l") auto
  note bf = body_fires [OF b]
  show ?case
  proof (cases r1)
    case (Some e)
    with Cons.prems b have "tr = tr1" "t = t1" by auto
    with bf show ?thesis by auto
  next
    case None
    obtain tr2 t2 r2 where l2: "loop its t1 = (tr2, t2, r2)"
      by (cases "loop its t1") auto
    from Cons.prems b None l2 have eq: "tr = tr1 @ tr2" "t = t2" by auto
    from Cons.IH [OF l2] have ih: "spaced t1 (fires tr2)" "t2 = last (t1 # fires tr2)"
      by auto
    from bf ih eq show ?thesis
      by (auto simp: fires_append spaced_append)
  qed
qed

lemma spaced_sorted:
  "spaced t0 ts \<Longrightarrow>
     (\<forall>t \<in> set ts. t - t0 > DEBOUNCE_SECONDS) \<and> sorted_wrt (\<lambda>x y. y - x > DEBOUNCE_SECONDS) ts"
proof (induction ts arbitrary: t0)
  case Nil
  then show ?case by simp
next
  case (Cons t ts)
  then have h: "t - t0 > DEBOUNCE_SECONDS" "spaced t ts" by auto
  from Cons.IH [OF h(2)] have ih: "\<forall>u \<in> set ts. u - t > DEBOUNCE_SECONDS"
    "sorted_wrt (\<lambda>x y. y - x > DEBOUNCE_SECONDS) ts" by auto
  have pos: "DEBOUNCE_SECONDS > 0" by (simp add: DEBOUNCE_SECONDS_def)
  have "\<forall>u \<in> set ts. u - t0 > DEBOUNCE_SECONDS"
  proof
    fix u assume "u \<in> set ts"
    with ih have "u - t > DEBOUNCE_SECONDS" by auto
    with h(1) pos show "u - t0 > DEBOUNCE_SECONDS" by linarith
  qed
  with h ih show ?case by auto
qed

lemma loop_append:
  "loop (xs @ ys) l =
     (case loop xs l of
        (tr, t, Some e) \<Rightarrow> (tr, t, Some e)
      | (tr, t, None) \<Rightarrow> (case loop ys t of (tr', t', r) \<Rightarrow> (tr @ tr', t', r)))"
proof (induction xs arbitrary: l)
  case Nil
  show ?case by (simp split: prod.splits)
next
  case (Cons x xs)
  obtain tr1 t1 r1 where b: "body x l = (tr1, t1, r1)" by (cases "body x l") auto
  show ?case
  proof (cases r1)
    case None
    with b Cons.IH [of t1] show ?thesis
      by (simp split: prod.splits option.splits)
  next
    case (Some e)
    with b show ?thesis by simp
  qed
qed

lemma body_no_match:
  "no_match it \<Longrightarrow> body it l = ([RecorderRead, PorcupineProcess], l, None)"
  by (cases it) auto

lemma loop_no_match:
  "\<forall>it \<in> set its. no_match it \<Longrightarrow>
     fires (fst (loop its l)) = [] \<and> snd (loop its l) = (l, None)"
proof (induction its)
  case Nil
  show ?case by simp
next
  case (Cons it its)
  then have "body it l = ([RecorderRead, PorcupineProcess], l, None)"
    by (simp add: body_no_match)
  with Cons show ?case by (cases "loop its l") auto
qed

text \<open>
  C1. In every run of \<open>main\<close>, whatever the detector reports and however often, any two calls
  of the action are more than \<open>DEBOUNCE_SECONDS\<close> apart on the clock the loop reads: the
  action is called at most once in any window of that length.
\<close>

theorem debounce_invariant:
  assumes "main a w = (tr, out)" and "i < j" and "j < length (fires tr)"
  shows "fires tr ! j - fires tr ! i > DEBOUNCE_SECONDS"
proof -
  obtain tr0 t r where l: "loop (iterations w) 0 = (tr0, t, r)"
    by (cases "loop (iterations w) 0") auto
  from loop_spaced [OF l] have "spaced 0 (fires tr0)" by simp
  moreover from fires_main [of a w] assms(1) l assms(3) have "fires tr = fires tr0" by auto
  ultimately have "spaced 0 (fires tr)" by simp
  from spaced_sorted [OF this]
  have "sorted_wrt (\<lambda>x y. y - x > DEBOUNCE_SECONDS) (fires tr)" by simp
  with assms(2,3) show ?thesis by (simp add: sorted_wrt_iff_nth_less)
qed

theorem debounce_invariant_witness:
  "fires (fst (main example_args
      (example_env\<lparr>iterations :=
         [Detected 0 10 None, Detected 0 11 None, Detected (- 1) 12 None,
          Detected 0 13 None]\<rparr>))) = [10, 13]
   \<and> DEBOUNCE_SECONDS < (13::real) - 10"
proof -
  let ?w = "example_env\<lparr>iterations :=
         [Detected 0 10 None, Detected 0 11 None, Detected (- 1) 12 None,
          Detected 0 13 None]\<rparr>"
  have f: "fires (fst (main example_args ?w)) = [10, 13]"
    by (simp add: main_def example_args_def example_env_def init_porcupine_def
        select_keyword_def existing_def init_recorder_def listen_def DEBOUNCE_SECONDS_def)
  have m: "main example_args ?w = (fst (main example_args ?w), snd (main example_args ?w))"
    by simp
  have "(0::nat) < 1" by simp
  moreover have "1 < length (fires (fst (main example_args ?w)))"
    by (simp add: f)
  ultimately have "DEBOUNCE_SECONDS
      < fires (fst (main example_args ?w)) ! 1 - fires (fst (main example_args ?w)) ! 0"
    by (rule debounce_invariant [OF m])
  with f show ?thesis by simp
qed

text \<open>
  C2. On a match (\<open>keyword_index \<ge> 0\<close>) the loop compares \<open>current_time - last_trigger_time\<close>
  with the debounce interval. Strictly greater: the action is called exactly once and the
  timestamp becomes \<open>current_time\<close>. Less or equal, equality included: nothing is called and
  the timestamp stays. Two consecutive matches that are each more than the interval after
  the timestamp they meet both fire.
\<close>

theorem debounce_decision:
  assumes "0 \<le> k"
  shows "(DEBOUNCE_SECONDS < now - l \<longrightarrow>
            (case body (Detected k now act) l of
               (tr, t, r) \<Rightarrow> fires tr = [now] \<and> t = now \<and> r = act))
       \<and> (now - l \<le> DEBOUNCE_SECONDS \<longrightarrow>
            (case body (Detected k now act) l of
               (tr, t, r) \<Rightarrow> fires tr = [] \<and> t = l \<and> r = None))
       \<and> (0 \<le> k' \<and> DEBOUNCE_SECONDS < now - l \<and> DEBOUNCE_SECONDS < now' - now \<longrightarrow>
            fires (fst (loop [Detected k now None, Detected k' now' act'] l)) = [now, now'])"
  using assms by (auto split: option.splits)

theorem debounce_decision_witness:
  "(0::int) \<le> 0 \<and> DEBOUNCE_SECONDS < 5 - 0
   \<and> (case body (Detected 0 5 None) 0 of (tr, t, r) \<Rightarrow> fires tr = [5] \<and> t = 5 \<and> r = None)
   \<and> 4 - 2 \<le> DEBOUNCE_SECONDS
   \<and> (case body (Detected 0 4 None) 2 of (tr, t, r) \<Rightarrow> fires tr = [] \<and> t = 2 \<and> r = None)
   \<and> DEBOUNCE_SECONDS < 8 - 5
   \<and> fires (fst (loop [Detected 0 5 None, Detected 0 8 None] 0)) = [5, 8]"
  using debounce_decision [of 0 5 0 None 0 8 None] debounce_decision [of 0 4 2 None 0 8 None]
  by (simp add: DEBOUNCE_SECONDS_def)

text \<open>
  C3, as the claim is worded, read on the loop's own clock: with readings \<open>0.0\<close>, \<open>1.0\<close>
  and \<open>2.1\<close> the match at \<open>0.0\<close> does not fire, because \<open>last_trigger_time\<close> starts at \<open>0\<close>
  and \<open>0.0 - 0\<close> is not greater than the interval. The only call is at \<open>2.1\<close>.
\<close>

theorem scenario_at_clock_zero:
  "fires (fst (main example_args
      (example_env\<lparr>iterations :=
         [Detected 0 0 None, Detected 0 1 None, Detected 0 (21 / 10) None]\<rparr>))) = [21 / 10]
   \<and> fires (fst (main example_args
      (example_env\<lparr>iterations :=
         [Detected 0 0 None, Detected 0 1 None, Detected 0 (21 / 10) None]\<rparr>))) \<noteq> [0, 21 / 10]"
  by (simp add: run_defs example_defs DEBOUNCE_SECONDS_def)

text \<open>
  C3, amended. A suppressed match changes nothing: no call, and \<open>last_trigger_time\<close> keeps
  its value, so it neither resets nor extends the window. With matches at clock readings
  \<open>T\<close>, \<open>T + 1.0\<close> and \<open>T + 2.1\<close>, where \<open>T\<close> exceeds the debounce interval, the action is
  called at \<open>T\<close> and at \<open>T + 2.1\<close> only.
\<close>

theorem suppressed_match_keeps_window:
  "(0 \<le> k \<and> now - l \<le> DEBOUNCE_SECONDS \<longrightarrow>
      (case body (Detected k now act) l of
         (tr, t, r) \<Rightarrow> fires tr = [] \<and> t = l \<and> r = None))
   \<and> (\<not> list_devices a \<and> access_key a \<noteq> ''YOUR_ACCESS_KEY_HERE''
      \<and> porcupine_create w = None \<and> recorder_create w = None \<and> recorder_start w = None
      \<and> 0 \<le> ka \<and> 0 \<le> kb \<and> 0 \<le> kc \<and> DEBOUNCE_SECONDS < T
      \<and> iterations w =
          [Detected ka T None, Detected kb (T + 1) None, Detected kc (T + 21 / 10) None]
      \<longrightarrow> fires (fst (main a w)) = [T, T + 21 / 10])"
proof -
  have 1: "0 \<le> k \<and> now - l \<le> DEBOUNCE_SECONDS \<longrightarrow>
      (case body (Detected k now act) l of
         (tr, t, r) \<Rightarrow> fires tr = [] \<and> t = l \<and> r = None)"
    by simp
  have 2: "fires (fst (main a w)) = [T, T + 21 / 10]"
    if h: "\<not> list_devices a" "access_key a \<noteq> ''YOUR_ACCESS_KEY_HERE''"
      "porcupine_create w = None" "recorder_create w = None" "recorder_start w = None"
      and k: "0 \<le> ka" "0 \<le> kb" "0 \<le> kc" "DEBOUNCE_SECONDS < T"
      and its: "iterations w =
          [Detected ka T None, Detected kb (T + 1) None, Detected kc (T + 21 / 10) None]"
  proof -
    have "fires (fst (loop
        [Detected ka T None, Detected kb (T + 1) None, Detected kc (T + 21 / 10) None] 0))
        = [T, T + 21 / 10]"
      using k by (simp add: DEBOUNCE_SECONDS_def)
    with main_listening [OF h] its show ?thesis by simp
  qed
  from 1 2 show ?thesis by blast
qed

theorem suppressed_match_keeps_window_witness:
  "(0::int) \<le> 0 \<and> 4 - 3 \<le> DEBOUNCE_SECONDS
   \<and> (case body (Detected 0 4 None) 3 of (tr, t, r) \<Rightarrow> fires tr = [] \<and> t = 3 \<and> r = None)
   \<and> DEBOUNCE_SECONDS < 100
   \<and> fires (fst (main example_args
        (example_env\<lparr>iterations :=
           [Detected 0 100 None, Detected 0 (100 + 1) None,
            Detected 0 (100 + 21 / 10) None]\<rparr>))) = [100, 100 + 21 / 10]"
  using suppressed_match_keeps_window [where k = 0 and now = 4 and l = 3 and act = None
      and a = example_args and ka = 0 and kb = 0 and kc = 0 and T = 100
      and w = "example_env\<lparr>iterations :=
           [Detected 0 100 None, Detected 0 (100 + 1) None,
            Detected 0 (100 + 21 / 10) None]\<rparr>"]
  by (simp add: example_defs DEBOUNCE_SECONDS_def)

text \<open>
  C4. \<open>last_trigger_time\<close> starts at \<open>0\<close>, so in every run that reaches the loop the first
  match fires, whatever follows it, provided the clock reading at that match exceeds the
  debounce interval.
\<close>

theorem first_match_fires:
  assumes "\<not> list_devices a" and "access_key a \<noteq> ''YOUR_ACCESS_KEY_HERE''"
    and "porcupine_create w = None" and "recorder_create w = None"
    and "recorder_start w = None"
    and "iterations w = pre @ Detected k now act # post"
    and "\<forall>it \<in> set pre. no_match it"
    and "0 \<le> k" and "DEBOUNCE_SECONDS < now"
  shows "fires (fst (main a w)) =
           now # (case act of None \<Rightarrow> fires (fst (loop post now)) | Some e \<Rightarrow> [])"
proof -
  from loop_no_match [OF assms(7), of 0]
  obtain tr0 where pre: "loop pre 0 = (tr0, 0, None)" "fires tr0 = []"
    by (cases "loop pre 0") auto
  have b: "body (Detected k now r) 0 =
             ([RecorderRead, PorcupineProcess, OnWakeWordDetected now], now, r)" for r
    using assms(8,9) by simp
  have "fires (fst (loop (Detected k now act # post) 0)) =
          now # (case act of None \<Rightarrow> fires (fst (loop post now)) | Some e \<Rightarrow> [])"
    by (cases act; cases "loop post now") (simp_all add: b fires_append del: body.simps)
  with pre have "fires (fst (loop (pre @ Detected k now act # post) 0)) =
          now # (case act of None \<Rightarrow> fires (fst (loop post now)) | Some e \<Rightarrow> [])"
    by (cases "loop (Detected k now act # post) 0")
       (simp add: loop_append [of pre] fires_append del: loop.simps)
  with main_listening [OF assms(1-5)] assms(6) show ?thesis by simp
qed

theorem first_match_fires_witness:
  "\<not> list_devices example_args \<and> access_key example_args \<noteq> ''YOUR_ACCESS_KEY_HERE''
   \<and> no_match (Detected (- 1) 1 None)
   \<and> DEBOUNCE_SECONDS < 5
   \<and> fires (fst (main example_args
        (example_env\<lparr>iterations :=
           [Detected (- 1) 1 None, Detected 0 5 None, Detected 0 6 None]\<rparr>))) = [5]"
  using first_match_fires [where a = example_args and k = 0 and now = 5 and act = None
      and pre = "[Detected (- 1) 1 None]" and post = "[Detected 0 6 None]"
      and w = "example_env\<lparr>iterations :=
           [Detected (- 1) 1 None, Detected 0 5 None, Detected 0 6 None]\<rparr>"]
  by (simp add: example_defs DEBOUNCE_SECONDS_def)

text \<open>
  C5. A pass in which the detector reports no match calls nothing and leaves
  \<open>last_trigger_time\<close> alone. Removing such a pass from anywhere in the run changes neither
  the calls of the action, nor the final timestamp, nor the way the loop ends; and any number
  of such passes in a row calls nothing.
\<close>

theorem no_match_has_no_effect:
  assumes "k < 0"
  shows "(case body (Detected k now act) l of
            (tr, t, r) \<Rightarrow> fires tr = [] \<and> t = l \<and> r = None)
       \<and> (case loop (xs @ Detected k now act # ys) l of
            (tr, t, r) \<Rightarrow>
              (case loop (xs @ ys) l of
                 (tr', t', r') \<Rightarrow> fires tr = fires tr' \<and> t = t' \<and> r = r'))
       \<and> ((\<forall>it \<in> set its. no_match it) \<longrightarrow>
            (case loop its l of (tr, t, r) \<Rightarrow> fires tr = [] \<and> t = l \<and> r = None))"
proof -
  have b: "body (Detected k now act) l' = ([RecorderRead, PorcupineProcess], l', None)" for l'
    using assms by simp
  have 1: "case body (Detected k now act) l of
            (tr, t, r) \<Rightarrow> fires tr = [] \<and> t = l \<and> r = None"
    by (simp add: b del: body.simps)
  have 2: "case loop (xs @ Detected k now act # ys) l of
            (tr, t, r) \<Rightarrow>
              (case loop (xs @ ys) l of
                 (tr', t', r') \<Rightarrow> fires tr = fires tr' \<and> t = t' \<and> r = r')"
    by (simp add: loop_append [of xs] b fires_append del: body.simps
          split: prod.splits option.splits)
  have 3: "(\<forall>it \<in> set its. no_match it) \<longrightarrow>
            (case loop its l of (tr, t, r) \<Rightarrow> fires tr = [] \<and> t = l \<and> r = None)"
    using loop_no_match [of its l] by (auto split: prod.splits)
  from 1 2 3 show ?thesis by blast
qed

theorem no_match_has_no_effect_witness:
  "(- 1::int) < 0
   \<and> (case body (Detected (- 1) 9 None) 3 of (tr, t, r) \<Rightarrow> fires tr = [] \<and> t = 3 \<and> r = None)
   \<and> fires (fst (loop ([Detected 0 5 None] @ Detected (- 1) 9 None # [Detected 0 10 None]) 0))
       = fires (fst (loop ([Detected 0 5 None] @ [Detected 0 10 None]) 0))
   \<and> no_match (Detected (- 1) 9 None) \<and> no_match (Detected (- 2) 9 None)
   \<and> (case loop [Detected (- 1) 9 None, Detected (- 2) 9 None] 3 of
         (tr, t, r) \<Rightarrow> fires tr = [] \<and> t = 3 \<and> r = None)"
  using no_match_has_no_effect [where k = "- 1" and now = 9 and act = None and l = 3
      and xs = "[Detected 0 5 None]" and ys = "[Detected 0 10 None]"
      and its = "[Detected (- 1) 9 None, Detected (- 2) 9 None]"]
    no_match_has_no_effect [where k = "- 1" and now = 9 and act = None and l = 0
      and xs = "[Detected 0 5 None]" and ys = "[Detected 0 10 None]"
      and its = "[Detected (- 1) 9 None, Detected (- 2) 9 None]"]
  by (simp add: DEBOUNCE_SECONDS_def)

section \<open>The paths through \<open>main\<close>\<close>

text \<open>The loop makes no call that acquires or releases a resource.\<close>

lemma loop_events: "ev \<in> set (fst (loop its l)) \<Longrightarrow> in_loop ev"
proof (induction its arbitrary: l)
  case Nil
  then show ?case by simp
next
  case (Cons it its)
  obtain tr1 t1 r1 where b: "body it l = (tr1, t1, r1)" by (cases "body it l") auto
  have b1: "\<forall>x \<in> set tr1. in_loop x"
    using b by (cases it) (auto split: if_splits)
  show ?case
  proof (cases r1)
    case None
    obtain tr2 t2 r2 where l2: "loop its t1 = (tr2, t2, r2)" by (cases "loop its t1") auto
    from Cons.prems b None l2 have "ev \<in> set tr1 \<or> ev \<in> set tr2" by auto
    with b1 Cons.IH [of t1] l2 show ?thesis by auto
  next
    case (Some e)
    with Cons.prems b b1 show ?thesis by auto
  qed
qed

lemma main_started:
  assumes "\<not> list_devices a" and "access_key a \<noteq> ''YOUR_ACCESS_KEY_HERE''"
    and "porcupine_create w = None" and "recorder_create w = None"
  shows "main a w =
           ([Print (fst (select_keyword a w)),
             PorcupineCreate (access_key a) (fst (snd (select_keyword a w))) (sensitivity a),
             PvRecorderCreate (device a),
             Print (Banner (snd (snd (select_keyword a w))))] @ fst (listen w),
            snd (listen w))"
  using assms
  by (cases "select_keyword a w"; cases "listen w")
     (simp add: main_def init_porcupine_def init_recorder_def)

lemma listen_interrupted:
  assumes "recorder_start w = None"
    and "snd (snd (loop (iterations w) 0)) = Some KeyboardInterrupt"
  shows "listen w =
           (RecorderStart # fst (loop (iterations w) 0) @ [Print Stopping]
              @ fst (cleanup w Returned),
            snd (cleanup w Returned))"
  using assms
  by (cases "loop (iterations w) 0"; cases "cleanup w Returned") (simp add: listen_def)

lemma main_porcupine_error:
  assumes "\<not> list_devices a" and "access_key a \<noteq> ''YOUR_ACCESS_KEY_HERE''"
    and "porcupine_create w = Some e"
  shows "main a w =
           ([Print (fst (select_keyword a w)),
             PorcupineCreate (access_key a) (fst (snd (select_keyword a w))) (sensitivity a)]
              @ fst (porcupine_handler e),
            snd (porcupine_handler e))"
  using assms
  by (cases "select_keyword a w"; cases "porcupine_handler e")
     (simp add: main_def init_porcupine_def)

lemma main_recorder_error:
  assumes "\<not> list_devices a" and "access_key a \<noteq> ''YOUR_ACCESS_KEY_HERE''"
    and "porcupine_create w = None" and "recorder_create w = Some e" and "is_Exception e"
  shows "main a w =
           ([Print (fst (select_keyword a w)),
             PorcupineCreate (access_key a) (fst (snd (select_keyword a w))) (sensitivity a),
             PvRecorderCreate (device a), Print ErrorInitializingRecorder, PorcupineDelete],
            case porcupine_delete w of None \<Rightarrow> Returned | Some e' \<Rightarrow> Raised e')"
  using assms
  by (cases "select_keyword a w")
     (simp add: main_def init_porcupine_def init_recorder_def)

section \<open>Leaving the loop\<close>

text \<open>
  C6, as the claim is worded. The loop is interrupted and \<open>recorder.stop()\<close> raises: the
  \<open>finally\<close> clause is left at once, \<open>porcupine.delete()\<close> is never called, and the error
  of \<open>stop\<close> leaves \<open>main\<close>.
\<close>

theorem stop_error_skips_delete:
  "RecorderStop \<in> set (fst (main example_args
      (example_env\<lparr>iterations := [Detected (- 1) 0 None, ReadRaises KeyboardInterrupt],
                    recorder_stop := Some OtherException\<rparr>)))
   \<and> PorcupineDelete \<notin> set (fst (main example_args
      (example_env\<lparr>iterations := [Detected (- 1) 0 None, ReadRaises KeyboardInterrupt],
                    recorder_stop := Some OtherException\<rparr>)))
   \<and> snd (main example_args
      (example_env\<lparr>iterations := [Detected (- 1) 0 None, ReadRaises KeyboardInterrupt],
                    recorder_stop := Some OtherException\<rparr>)) = Raised OtherException"
  by (simp add: run_defs example_defs)

text \<open>
  C6, amended. When the loop is left by an interrupt, \<open>recorder.stop()\<close> is called;
  \<open>porcupine.delete()\<close> is called exactly when \<open>recorder.stop()\<close> has returned, also when
  \<open>delete\<close> then raises. \<open>main\<close> returns when both calls return, and otherwise ends with
  the error of the call that raised.
\<close>

theorem interrupt_cleanup:
  assumes "\<not> list_devices a" and "access_key a \<noteq> ''YOUR_ACCESS_KEY_HERE''"
    and "porcupine_create w = None" and "recorder_create w = None"
    and "recorder_start w = None"
    and "snd (snd (loop (iterations w) 0)) = Some KeyboardInterrupt"
  shows "RecorderStop \<in> set (fst (main a w))
       \<and> (PorcupineDelete \<in> set (fst (main a w)) \<longleftrightarrow> recorder_stop w = None)
       \<and> snd (main a w) =
           (case recorder_stop w of
              Some e \<Rightarrow> Raised e
            | None \<Rightarrow> (case porcupine_delete w of Some e \<Rightarrow> Raised e | None \<Rightarrow> Returned))"
proof -
  have nl: "\<not> in_loop PorcupineDelete" by simp
  have nd: "PorcupineDelete \<notin> set (fst (loop (iterations w) 0))"
    using loop_events [of PorcupineDelete "iterations w" 0] nl by blast
  have m: "main a w =
           ([Print (fst (select_keyword a w)),
             PorcupineCreate (access_key a) (fst (snd (select_keyword a w))) (sensitivity a),
             PvRecorderCreate (device a),
             Print (Banner (snd (snd (select_keyword a w)))), RecorderStart]
              @ fst (loop (iterations w) 0) @ [Print Stopping] @ fst (cleanup w Returned),
            snd (cleanup w Returned))"
    by (simp add: main_started [OF assms(1-4)] listen_interrupted [OF assms(5,6)])
  show ?thesis
    using nd by (simp add: m cleanup_def split: option.splits)
qed

theorem interrupt_cleanup_witness:
  "snd (snd (loop [ReadRaises KeyboardInterrupt] 0)) = Some KeyboardInterrupt
   \<and> RecorderStop \<in> set (fst (main example_args
        (example_env\<lparr>iterations := [ReadRaises KeyboardInterrupt],
                      porcupine_delete := Some OtherException\<rparr>)))
   \<and> PorcupineDelete \<in> set (fst (main example_args
        (example_env\<lparr>iterations := [ReadRaises KeyboardInterrupt],
                      porcupine_delete := Some OtherException\<rparr>)))
   \<and> snd (main example_args
        (example_env\<lparr>iterations := [ReadRaises KeyboardInterrupt],
                      porcupine_delete := Some OtherException\<rparr>)) = Raised OtherException
   \<and> snd (main example_args
        (example_env\<lparr>iterations := [ReadRaises KeyboardInterrupt]\<rparr>)) = Returned
   \<and> PorcupineDelete \<notin> set (fst (main example_args
        (example_env\<lparr>iterations := [Detected 0 5 (Some KeyboardInterrupt)],
                      recorder_stop := Some OtherException\<rparr>)))"
  using interrupt_cleanup [where a = example_args
      and w = "example_env\<lparr>iterations := [ReadRaises KeyboardInterrupt],
                      porcupine_delete := Some OtherException\<rparr>"]
    interrupt_cleanup [where a = example_args
      and w = "example_env\<lparr>iterations := [ReadRaises KeyboardInterrupt]\<rparr>"]
    interrupt_cleanup [where a = example_args
      and w = "example_env\<lparr>iterations := [Detected 0 5 (Some KeyboardInterrupt)],
                      recorder_stop := Some OtherException\<rparr>"]
  by (simp add: example_defs DEBOUNCE_SECONDS_def)

section \<open>Leaving before the loop\<close>

text \<open>
  C7, as the claim is worded. The test of line 97 compares the credential with the
  placeholder text only. An empty credential passes it and is handed to
  \<open>pvporcupine.create\<close>: no setup guidance is printed and the detector initialisation is
  attempted.
\<close>

theorem empty_key_reaches_detector:
  "main (example_args\<lparr>access_key := ''''\<rparr>)
        (example_env\<lparr>porcupine_create := Some PorcupineInvalidArgumentError\<rparr>)
     = ([Print NoCustomKeywordFound, PorcupineCreate '''' (Keywords ''jarvis'') (4 / 5),
         Print InvalidArgumentMsg], Returned)"
  by (simp add: run_defs example_defs)

text \<open>
  C7, amended. With the placeholder credential \<open>YOUR_ACCESS_KEY_HERE\<close> no detector and no
  recorder is created and the loop never starts; unless the device listing was asked for
  (it is handled first), \<open>main\<close> prints the setup guidance and returns, and does nothing else.
\<close>

theorem placeholder_key_exits_early:
  assumes "access_key a = ''YOUR_ACCESS_KEY_HERE''"
  shows "(\<forall>ev \<in> set (fst (main a w)). \<not> acquires ev \<and> \<not> in_loop ev)
       \<and> snd (main a w) \<noteq> Listening
       \<and> (\<not> list_devices a \<longrightarrow> main a w = ([Print SetupRequired], Returned))"
  using assms
  by (auto simp: main_def list_audio_devices_def split: sum.splits)

theorem placeholder_key_exits_early_witness:
  "main (example_args\<lparr>access_key := ''YOUR_ACCESS_KEY_HERE''\<rparr>) example_env
     = ([Print SetupRequired], Returned)"
  using placeholder_key_exits_early [where a = "example_args\<lparr>access_key := ''YOUR_ACCESS_KEY_HERE''\<rparr>"
      and w = example_env]
  by (simp add: example_defs)

text \<open>
  C8. An error (an exception that \<open>except Exception\<close> catches) raised while the detector or
  the recorder is created ends \<open>main\<close> before the loop. If the detector fails, the matching
  message is the last thing printed, no recorder is created and \<open>main\<close> returns. If the
  recorder fails after the detector was created, the error is reported and the detector is
  deleted as the last call; \<open>main\<close> then returns, unless \<open>porcupine.delete()\<close> itself raises.
\<close>

theorem init_error_is_fatal:
  assumes "\<not> list_devices a" and "access_key a \<noteq> ''YOUR_ACCESS_KEY_HERE''"
    and "is_Exception e"
  shows "(porcupine_create w = Some e \<longrightarrow>
            (\<exists>m. error_report m \<and> last (fst (main a w)) = Print m)
          \<and> (\<forall>ev \<in> set (fst (main a w)). \<not> in_loop ev)
          \<and> PvRecorderCreate (device a) \<notin> set (fst (main a w))
          \<and> snd (main a w) = Returned)
       \<and> (porcupine_create w = None \<and> recorder_create w = Some e \<longrightarrow>
            Print ErrorInitializingRecorder \<in> set (fst (main a w))
          \<and> (\<forall>ev \<in> set (fst (main a w)). \<not> in_loop ev)
          \<and> last (fst (main a w)) = PorcupineDelete
          \<and> snd (main a w) =
               (case porcupine_delete w of None \<Rightarrow> Returned | Some e' \<Rightarrow> Raised e'))"
proof -
  have 1: "(\<exists>m. error_report m \<and> last (fst (main a w)) = Print m)
          \<and> (\<forall>ev \<in> set (fst (main a w)). \<not> in_loop ev)
          \<and> PvRecorderCreate (device a) \<notin> set (fst (main a w))
          \<and> snd (main a w) = Returned"
    if c: "porcupine_create w = Some e"
    using assms(3)
    by (cases e) (simp_all add: main_porcupine_error [OF assms(1,2) c])
  have 2: "Print ErrorInitializingRecorder \<in> set (fst (main a w))
          \<and> (\<forall>ev \<in> set (fst (main a w)). \<not> in_loop ev)
          \<and> last (fst (main a w)) = PorcupineDelete
          \<and> snd (main a w) =
               (case porcupine_delete w of None \<Rightarrow> Returned | Some e' \<Rightarrow> Raised e')"
    if c: "porcupine_create w = None" "recorder_create w = Some e"
    by (simp add: main_recorder_error [OF assms(1,2) c assms(3)])
  from 1 2 show ?thesis by blast
qed

theorem init_error_is_fatal_witness:
  "is_Exception PorcupineActivationError \<and> is_Exception OtherException
   \<and> main example_args (example_env\<lparr>porcupine_create := Some PorcupineActivationError\<rparr>)
       = ([Print NoCustomKeywordFound, PorcupineCreate ''key'' (Keywords ''jarvis'') (4 / 5),
           Print ActivationErrorMsg], Returned)
   \<and> last (fst (main example_args (example_env\<lparr>recorder_create := Some OtherException\<rparr>)))
       = PorcupineDelete
   \<and> snd (main example_args (example_env\<lparr>recorder_create := Some OtherException\<rparr>))
       = Returned"
  using init_error_is_fatal [where a = example_args and e = PorcupineActivationError
      and w = "example_env\<lparr>porcupine_create := Some PorcupineActivationError\<rparr>"]
    init_error_is_fatal [where a = example_args and e = OtherException
      and w = "example_env\<lparr>recorder_create := Some OtherException\<rparr>"]
  by (simp add: run_defs example_defs)

text \<open>
  C9. With \<open>--list-devices\<close>, \<open>main\<close> asks the recorder library for the devices and does
  nothing else: no detector, no recorder, no loop, no call of the action. When the library
  answers, every device is printed with its index and \<open>main\<close> returns.
\<close>

theorem list_devices_only_lists:
  assumes "list_devices a"
  shows "(\<forall>ev \<in> set (fst (main a w)). \<not> acquires ev \<and> \<not> in_loop ev)
       \<and> fires (fst (main a w)) = []
       \<and> snd (main a w) \<noteq> Listening
       \<and> GetAvailableDevices \<in> set (fst (main a w))
       \<and> (get_available_devices w = Inr devices \<longrightarrow>
            main a w =
              ([Print DevicesHeader, GetAvailableDevices]
                 @ map (\<lambda>(i, d). Print (DeviceEntry i d)) (enumerate 0 devices)
                 @ [Print DevicesFooter],
               Returned))"
  using assms fires_list_audio_devices [of w]
  by (auto simp: main_def list_audio_devices_def split: sum.splits)

theorem list_devices_only_lists_witness:
  "list_devices (example_args\<lparr>list_devices := True\<rparr>)
   \<and> main (example_args\<lparr>list_devices := True\<rparr>)
          (example_env\<lparr>get_available_devices := Inr [''Microphone'', ''Headset'']\<rparr>)
       = ([Print DevicesHeader, GetAvailableDevices, Print (DeviceEntry 0 ''Microphone''),
           Print (DeviceEntry 1 ''Headset''), Print DevicesFooter], Returned)"
  using list_devices_only_lists [where a = "example_args\<lparr>list_devices := True\<rparr>"
      and w = "example_env\<lparr>get_available_devices := Inr [''Microphone'', ''Headset'']\<rparr>"
      and devices = "[''Microphone'', ''Headset'']"]
  by (simp add: example_defs)

section \<open>Choosing the keyword\<close>

text \<open>
  C10, as the claim is worded. With \<open>--use-jarvis\<close> and a \<open>--keyword-path\<close> that names no
  file, the built-in keyword is chosen although the model file named by the environment
  variable exists: \<open>--use-jarvis\<close> is tested before the environment's path.
\<close>

theorem use_jarvis_skips_env_path:
  "existing (example_env\<lparr>CUSTOM_KEYWORD_PATH := Some ''env.ppn'',
                         path_exists := (\<lambda>p. p = ''env.ppn'')\<rparr>)
            (Some ''env.ppn'') = Some ''env.ppn''
   \<and> main (example_args\<lparr>keyword_path := Some ''missing.ppn'', use_jarvis := True\<rparr>)
          (example_env\<lparr>CUSTOM_KEYWORD_PATH := Some ''env.ppn'',
                        path_exists := (\<lambda>p. p = ''env.ppn'')\<rparr>)
       = ([Print UsingJarvis, PorcupineCreate ''key'' (Keywords ''jarvis'') (4 / 5),
           PvRecorderCreate (- 1), Print (Banner ''Jarvis''), RecorderStart], Listening)"
  by (simp add: run_defs example_defs)

text \<open>
  C10, amended. A \<open>--keyword-path\<close> that names no file is passed over without an error
  message. The call of \<open>pvporcupine.create\<close> then gets the built-in \<open>jarvis\<close> keyword when
  \<open>--use-jarvis\<close> is given; otherwise the environment's model path when that file exists;
  otherwise the built-in \<open>jarvis\<close> keyword. When both resources are acquired, the recorder
  starts and nothing is raised in the loop, \<open>main\<close> is listening.
\<close>

theorem missing_keyword_path_falls_back:
  assumes "\<not> list_devices a" and "access_key a \<noteq> ''YOUR_ACCESS_KEY_HERE''"
    and "keyword_path a = Some p" and "\<not> path_exists w p"
  shows "take 2 (fst (main a w)) =
           (if use_jarvis a then
              [Print UsingJarvis,
               PorcupineCreate (access_key a) (Keywords ''jarvis'') (sensitivity a)]
            else
              (case existing w (CUSTOM_KEYWORD_PATH w) of
                 Some q \<Rightarrow>
                   [Print (LoadingCustomKeywordFromEnv q),
                    PorcupineCreate (access_key a) (KeywordPaths q) (sensitivity a)]
               | None \<Rightarrow>
                   [Print NoCustomKeywordFound,
                    PorcupineCreate (access_key a) (Keywords ''jarvis'') (sensitivity a)]))
       \<and> (\<forall>m. error_report m \<longrightarrow> Print m \<notin> set (take 2 (fst (main a w))))
       \<and> (porcupine_create w = None \<and> recorder_create w = None \<and> recorder_start w = None
            \<and> snd (snd (loop (iterations w) 0)) = None
          \<longrightarrow> snd (main a w) = Listening)"
proof -
  have ex: "existing w (keyword_path a) = None"
    using assms(3,4) by (simp add: existing_def)
  have sel: "select_keyword a w =
      (if use_jarvis a then (UsingJarvis, Keywords ''jarvis'', ''Jarvis'')
       else (case existing w (CUSTOM_KEYWORD_PATH w) of
               Some q \<Rightarrow> (LoadingCustomKeywordFromEnv q, KeywordPaths q, ''Hey Jubilee'')
             | None \<Rightarrow> (NoCustomKeywordFound, Keywords ''jarvis'', ''Jarvis'')))"
    by (simp add: select_keyword_def ex)
  have t2: "take 2 (fst (main a w)) =
      [Print (fst (select_keyword a w)),
       PorcupineCreate (access_key a) (fst (snd (select_keyword a w))) (sensitivity a)]"
  proof (cases "porcupine_create w")
    case None
    then show ?thesis using assms(1,2)
      by (cases "select_keyword a w"; cases "init_recorder a w"; cases "listen w")
         (auto simp: main_def init_porcupine_def split: option.splits)
  next
    case (Some e)
    show ?thesis by (simp add: main_porcupine_error [OF assms(1,2) Some])
  qed
  have 1: "take 2 (fst (main a w)) =
           (if use_jarvis a then
              [Print UsingJarvis,
               PorcupineCreate (access_key a) (Keywords ''jarvis'') (sensitivity a)]
            else
              (case existing w (CUSTOM_KEYWORD_PATH w) of
                 Some q \<Rightarrow>
                   [Print (LoadingCustomKeywordFromEnv q),
                    PorcupineCreate (access_key a) (KeywordPaths q) (sensitivity a)]
               | None \<Rightarrow>
                   [Print NoCustomKeywordFound,
                    PorcupineCreate (access_key a) (Keywords ''jarvis'') (sensitivity a)]))"
    by (simp add: t2 sel split: option.splits)
  have 2: "\<forall>m. error_report m \<longrightarrow> Print m \<notin> set (take 2 (fst (main a w)))"
    by (auto simp: 1 split: option.splits)
  have 3: "snd (main a w) = Listening"
    if c: "porcupine_create w = None" "recorder_create w = None" "recorder_start w = None"
      and n: "snd (snd (loop (iterations w) 0)) = None"
  proof -
    have "snd (listen w) = Listening"
      using c(3) n by (cases "loop (iterations w) 0") (simp add: listen_def)
    then show ?thesis by (simp add: main_started [OF assms(1,2) c(1,2)])
  qed
  from 1 2 3 show ?thesis by blast
qed

theorem missing_keyword_path_falls_back_witness:
  "\<not> path_exists (example_env\<lparr>CUSTOM_KEYWORD_PATH := Some ''env.ppn'',
                         path_exists := (\<lambda>p. p = ''env.ppn'')\<rparr>) ''missing.ppn''
   \<and> main (example_args\<lparr>keyword_path := Some ''missing.ppn''\<rparr>)
          (example_env\<lparr>CUSTOM_KEYWORD_PATH := Some ''env.ppn'',
                        path_exists := (\<lambda>p. p = ''env.ppn'')\<rparr>)
       = ([Print (LoadingCustomKeywordFromEnv ''env.ppn''),
           PorcupineCreate ''key'' (KeywordPaths ''env.ppn'') (4 / 5),
           PvRecorderCreate (- 1), Print (Banner ''Hey Jubilee''), RecorderStart], Listening)
   \<and> take 2 (fst (main (example_args\<lparr>keyword_path := Some ''missing.ppn''\<rparr>) example_env))
       = [Print NoCustomKeywordFound, PorcupineCreate ''key'' (Keywords ''jarvis'') (4 / 5)]"
  using missing_keyword_path_falls_back
      [where a = "example_args\<lparr>keyword_path := Some ''missing.ppn''\<rparr>"
        and p = "''missing.ppn''"
        and w = "example_env\<lparr>CUSTOM_KEYWORD_PATH := Some ''env.ppn'',
                        path_exists := (\<lambda>p. p = ''env.ppn'')\<rparr>"]
    missing_keyword_path_falls_back
      [where a = "example_args\<lparr>keyword_path := Some ''missing.ppn''\<rparr>"
        and p = "''missing.ppn''" and w = example_env]
  by (simp add: run_defs example_defs)

end
